theory Spec2Isabelle
  imports Complex_Main "HOL-Library.Sublist"
begin

section \<open>Retail replenishment agent: model of \<^verbatim>\<open>retail_agent.py\<close>\<close>

text \<open>
  Modelling conventions.
  \<^item> A Python \<^verbatim>\<open>float\<close> is modelled by a real number (type \<open>real\<close>) and a decimal
    literal by the fraction it is written as. The float-valued results (forecast,
    deviation, lead time, stocks, rates) are computed in exact arithmetic. The order
    quantity is an integer taken from floats, and there rounding decides the result:
    the sum \<^verbatim>\<open>inventory_on_hand + inventory_on_order\<close> and the difference
    \<^verbatim>\<open>target_stock - net_stock\<close> are rounded to binary64 (function \<open>binary64\<close>).
    Overflow to infinity and NaN are not modelled. A Python \<^verbatim>\<open>int\<close> is an \<open>int\<close>.
  \<^item> A function that can raise returns \<open>error + 'a\<close>, with \<open>Inl\<close> the exception.
  \<^item> The simulator's local variables form the record \<open>sim_state\<close>; the body of its
    \<^verbatim>\<open>for\<close> loop is the function \<open>sim_day\<close>, cut into the three phases the source
    runs in order, and the loop is the recursion \<open>sim_loop\<close> over the days of
    \<^verbatim>\<open>range(start, len(demand))\<close>.
\<close>

subsection \<open>Exceptions and library functions\<close>

text \<open>
  \<open>ValueError_service_level ks\<close> is the \<^verbatim>\<open>ValueError\<close> of the constructor; its message is
  the fixed text followed by \<^verbatim>\<open>", ".join(str(k) for k in ks)\<close>, so the payload \<open>ks\<close> is
  the list of values the message enumerates, in order.
\<close>

datatype error =
    ValueError_service_level "real list"
  | ValueError_math_domain
  | KeyError real
  | StatisticsError
  | IndexError
  | ZeroDivisionError

text \<open>\<^verbatim>\<open>statistics.mean\<close>: raises on an empty sample.\<close>

definition statistics_mean :: "real list \<Rightarrow> error + real" where
  "statistics_mean data =
     (if data = [] then Inl StatisticsError
      else Inr (sum_list data / real (length data)))"

text \<open>\<^verbatim>\<open>statistics.pstdev\<close>: the population standard deviation; raises on an empty sample.\<close>

definition statistics_pstdev :: "real list \<Rightarrow> error + real" where
  "statistics_pstdev data =
     (if data = [] then Inl StatisticsError
      else (let mu = sum_list data / real (length data)
            in Inr (sqrt (sum_list (map (\<lambda>x. (x - mu)\<^sup>2) data) / real (length data)))))"

text \<open>\<^verbatim>\<open>math.sqrt\<close>: raises on a negative argument.\<close>

definition math_sqrt :: "real \<Rightarrow> error + real" where
  "math_sqrt x = (if x < 0 then Inl ValueError_math_domain else Inr (sqrt x))"

text \<open>
  Rounding of a real number to binary64, the format of a Python \<^verbatim>\<open>float\<close>: to the
  nearest number with a significand of 53 bits, a tie going to the even significand.
  The exponent of the last bit is never below \<open>-1074\<close> (subnormal numbers); the
  largest exponent is not bounded, so a result beyond the range of the format is rounded
  like any other instead of becoming infinite.
\<close>

definition round_half_even :: "real \<Rightarrow> int" where
  "round_half_even x =
     (let f = \<lfloor>x\<rfloor>; r = x - real_of_int f
      in if r < 1 / 2 then f
         else if 1 / 2 < r then f + 1
         else if even f then f else f + 1)"

definition binary64 :: "real \<Rightarrow> real" where
  "binary64 x =
     (if x = 0 then 0
      else (let e = max (\<lfloor>log 2 \<bar>x\<bar>\<rfloor> - 52) (- 1074)
            in real_of_int (round_half_even (x / 2 powr real_of_int e))
                 * 2 powr real_of_int e))"

text \<open>\<^verbatim>\<open>math.ceil\<close>: the least integer not below the argument.\<close>

definition math_ceil :: "real \<Rightarrow> int" where
  "math_ceil x = \<lceil>x\<rceil>"

text \<open>The true division \<^verbatim>\<open>a / b\<close>.\<close>

definition py_truediv :: "real \<Rightarrow> real \<Rightarrow> error + real" where
  "py_truediv a b = (if b = 0 then Inl ZeroDivisionError else Inr (a / b))"

text \<open>
  The slice \<^verbatim>\<open>xs[k:]\<close>: a negative \<open>k\<close> counts from the end (and is clipped at the
  start of the list), a non-negative \<open>k\<close> drops \<open>k\<close> elements.
\<close>

definition slice_from :: "int \<Rightarrow> 'a list \<Rightarrow> 'a list" where
  "slice_from k xs =
     (if k < 0 then drop (nat (int (length xs) + k)) xs else drop (nat k) xs)"

subsection \<open>The service-level table\<close>

text \<open>The dictionary \<^verbatim>\<open>SERVICE_Z\<close> (lines 21 to 28): its items in the order of the source,
  and the lookup.\<close>

definition SERVICE_Z_items :: "(real \<times> real) list" where
  "SERVICE_Z_items =
     [(0.80, 0.84), (0.85, 1.04), (0.90, 1.28), (0.95, 1.65), (0.97, 1.88), (0.99, 2.33)]"

definition SERVICE_Z :: "real \<rightharpoonup> real" where
  "SERVICE_Z = map_of SERVICE_Z_items"

subsection \<open>The agent\<close>

record ReplenishmentDecision =
  forecast_demand :: real
  demand_std :: real
  estimated_lead_time_days :: real
  safety_stock :: real
  reorder_point :: real
  target_stock :: real
  recommended_order_qty :: int

record RetailDecisionAgent =
  service_level :: real
  review_period_days :: int
  alpha :: real
  demand_window :: int

text \<open>The constructor \<^verbatim>\<open>RetailDecisionAgent.__init__\<close> (lines 50 to 63). The service
  level is the only argument it checks.\<close>

definition RetailDecisionAgent_init ::
    "real \<Rightarrow> int \<Rightarrow> real \<Rightarrow> int \<Rightarrow> error + RetailDecisionAgent" where
  "RetailDecisionAgent_init sl rp a w =
     (if SERVICE_Z sl = None
      then Inl (ValueError_service_level (sort (map fst SERVICE_Z_items)))
      else Inr \<lparr>service_level = sl, review_period_days = rp, alpha = a, demand_window = w\<rparr>)"

text \<open>\<^verbatim>\<open>_exp_smoothing_forecast\<close> (lines 65 to 71): the level is seeded with the first
  value and updated by every later one.\<close>

definition exp_smoothing_forecast :: "RetailDecisionAgent \<Rightarrow> real list \<Rightarrow> real" where
  "exp_smoothing_forecast self history =
     (case history of
        [] \<Rightarrow> 0
      | h # rest \<Rightarrow>
          max 0 (foldl (\<lambda>level v. alpha self * v + (1 - alpha self) * level) h rest))"

text \<open>\<^verbatim>\<open>_recent_std\<close> (lines 73 to 76).\<close>

definition recent_std :: "real list \<Rightarrow> error + real" where
  "recent_std history =
     (if length history < 2 then Inr 0 else statistics_pstdev history)"

text \<open>\<^verbatim>\<open>recommend\<close> (lines 78 to 110). The optional argument \<^verbatim>\<open>lead_time_history\<close> is
  an \<open>option\<close>, \<open>None\<close> when it is absent; \<^verbatim>\<open>lead_time_history or [7.0]\<close> replaces an
  absent and an empty history alike. The lookup \<^verbatim>\<open>SERVICE_Z[self.service_level]\<close> raises
  \<^verbatim>\<open>KeyError\<close> on a level that is not a key. The float sum of line 99 and the float
  difference of line 100 are rounded, since \<^verbatim>\<open>math.ceil\<close> turns their result into the
  integer the decision returns.\<close>

definition recommend ::
    "RetailDecisionAgent \<Rightarrow> real list \<Rightarrow> real \<Rightarrow> real \<Rightarrow> real list option
       \<Rightarrow> error + ReplenishmentDecision" where
  "recommend self demand_history inventory_on_hand inventory_on_order lead_time_history =
     (let recent = (if demand_history \<noteq> []
                    then slice_from (- demand_window self) demand_history else []);
          forecast_daily = exp_smoothing_forecast self recent
      in case recent_std recent of
           Inl e \<Rightarrow> Inl e
         | Inr dstd \<Rightarrow>
             (let lead_hist = (case lead_time_history of
                                 None \<Rightarrow> [7]
                               | Some xs \<Rightarrow> if xs = [] then [7] else xs)
              in case statistics_mean lead_hist of
                   Inl e \<Rightarrow> Inl e
                 | Inr m \<Rightarrow>
                     (let lead_time = max 1 m
                      in case SERVICE_Z (service_level self) of
                           None \<Rightarrow> Inl (KeyError (service_level self))
                         | Some z \<Rightarrow>
                             (case math_sqrt lead_time of
                                Inl e \<Rightarrow> Inl e
                              | Inr sq \<Rightarrow>
                                  (let sstock = z * dstd * sq;
                                       rpoint = forecast_daily * lead_time + sstock;
                                       protection_days =
                                         lead_time + real_of_int (review_period_days self);
                                       tstock = forecast_daily * protection_days + sstock;
                                       net_stock =
                                         binary64 (inventory_on_hand + inventory_on_order);
                                       recommended = max 0 (binary64 (tstock - net_stock))
                                   in Inr \<lparr>forecast_demand = forecast_daily,
                                           demand_std = dstd,
                                           estimated_lead_time_days = lead_time,
                                           safety_stock = sstock,
                                           reorder_point = rpoint,
                                           target_stock = tstock,
                                           recommended_order_qty =
                                             math_ceil recommended\<rparr>)))))"

subsection \<open>The simulator\<close>

record sim_state =
  inventory :: real
  pipeline :: "(int \<times> int) list"
  stockout_days :: int
  total_shortage :: real
  total_holding :: real
  placed_orders :: int

record SimulationMetrics =
  periods :: int
  stockout_rate :: real
  avg_ending_inventory :: real
  total_shortage_units :: real
  orders_placed :: int

text \<open>The quantities \<^verbatim>\<open>[q for arrival, q in pipeline if arrival == day]\<close>.\<close>

definition arrivals_on :: "nat \<Rightarrow> (int \<times> int) list \<Rightarrow> int list" where
  "arrivals_on day pl = map snd (filter (\<lambda>(arrival, q). arrival = int day) pl)"

text \<open>The total \<^verbatim>\<open>sum(q for _, q in pipeline)\<close>.\<close>

definition on_order_of :: "(int \<times> int) list \<Rightarrow> int" where
  "on_order_of pl = sum_list (map snd pl)"

text \<open>First phase of a day (lines 155 to 158): arrivals are added to the inventory and
  leave the pipeline.\<close>

definition sim_arrivals :: "nat \<Rightarrow> sim_state \<Rightarrow> sim_state" where
  "sim_arrivals day s =
     (let arrivals = arrivals_on day (pipeline s);
          inv1 = (if arrivals \<noteq> [] then inventory s + real_of_int (sum_list arrivals)
                 else inventory s)
      in s\<lparr>inventory := inv1,
            pipeline := filter (\<lambda>(arrival, q). arrival \<noteq> int day) (pipeline s)\<rparr>)"

text \<open>Second phase (lines 160 to 173): the decision on the history before the day, and
  the reorder check, which appends an order due on \<^verbatim>\<open>day + lead_time_days\<close>.\<close>

definition sim_reorder ::
    "RetailDecisionAgent \<Rightarrow> real list \<Rightarrow> int \<Rightarrow> nat \<Rightarrow> sim_state \<Rightarrow> error + sim_state" where
  "sim_reorder agent demand lead_time_days day s =
     (let history = take day demand;
          on_order = on_order_of (pipeline s)
      in case recommend agent history (inventory s) (real_of_int on_order)
                (Some [real_of_int lead_time_days]) of
           Inl e \<Rightarrow> Inl e
         | Inr decision \<Rightarrow>
             if inventory s + real_of_int on_order \<le> reorder_point decision
             then (let qty = recommended_order_qty decision
                   in if qty > 0
                      then Inr (s\<lparr>pipeline := pipeline s @ [(int day + lead_time_days, qty)],
                                  placed_orders := placed_orders s + 1\<rparr>)
                      else Inr s)
             else Inr s)"

text \<open>Third phase (lines 175 to 184): the day's demand is served or lost, then the ending
  inventory is added to the holding total. \<^verbatim>\<open>demand[day]\<close> raises out of range.\<close>

definition sim_demand :: "real list \<Rightarrow> nat \<Rightarrow> sim_state \<Rightarrow> error + sim_state" where
  "sim_demand demand day s =
     (if \<not> day < length demand then Inl IndexError
      else (let today_demand = demand ! day;
                s1 = (if inventory s \<ge> today_demand
                      then s\<lparr>inventory := inventory s - today_demand\<rparr>
                      else s\<lparr>total_shortage := total_shortage s + (today_demand - inventory s),
                             stockout_days := stockout_days s + 1,
                             inventory := 0\<rparr>)
            in Inr (s1\<lparr>total_holding := total_holding s1 + inventory s1\<rparr>)))"

text \<open>The body of the loop, and the loop over a list of days (line 154).\<close>

definition sim_day ::
    "RetailDecisionAgent \<Rightarrow> real list \<Rightarrow> int \<Rightarrow> nat \<Rightarrow> sim_state \<Rightarrow> error + sim_state" where
  "sim_day agent demand lead_time_days day s =
     (case sim_reorder agent demand lead_time_days day (sim_arrivals day s) of
        Inl e \<Rightarrow> Inl e
      | Inr s1 \<Rightarrow> sim_demand demand day s1)"

fun sim_loop ::
    "RetailDecisionAgent \<Rightarrow> real list \<Rightarrow> int \<Rightarrow> nat list \<Rightarrow> sim_state \<Rightarrow> error + sim_state" where
  "sim_loop agent demand lead_time_days [] s = Inr s"
| "sim_loop agent demand lead_time_days (day # days) s =
     (case sim_day agent demand lead_time_days day s of
        Inl e \<Rightarrow> Inl e
      | Inr s' \<Rightarrow> sim_loop agent demand lead_time_days days s')"

text \<open>The first simulated day, \<^verbatim>\<open>start\<close> (line 152).\<close>

definition start_day :: "real list \<Rightarrow> nat" where
  "start_day demand = max 30 (min 45 (length demand div 3))"

text \<open>The values of the local variables before the loop (lines 144 to 150).\<close>

definition initial_state :: "real \<Rightarrow> sim_state" where
  "initial_state initial_inventory =
     \<lparr>inventory = initial_inventory, pipeline = [], stockout_days = 0,
      total_shortage = 0, total_holding = 0, placed_orders = 0\<rparr>"

text \<open>The days of the loop, \<^verbatim>\<open>range(start, len(demand))\<close>.\<close>

definition sim_days :: "real list \<Rightarrow> nat list" where
  "sim_days demand = [start_day demand..<length demand]"

text \<open>The returned dictionary (lines 186 to 193), from the state the loop ends in. A
  rate is divided only when \<^verbatim>\<open>periods\<close> is not 0.\<close>

definition metrics_of :: "real list \<Rightarrow> sim_state \<Rightarrow> error + SimulationMetrics" where
  "metrics_of demand s =
     (let n_periods = int (length demand) - int (start_day demand)
      in case (if n_periods \<noteq> 0
               then py_truediv (real_of_int (stockout_days s)) (real_of_int n_periods)
               else Inr 0) of
           Inl e \<Rightarrow> Inl e
         | Inr rate \<Rightarrow>
             (case (if n_periods \<noteq> 0
                    then py_truediv (total_holding s) (real_of_int n_periods)
                    else Inr 0) of
                Inl e \<Rightarrow> Inl e
              | Inr avg \<Rightarrow>
                  Inr \<lparr>periods = n_periods, stockout_rate = rate,
                       avg_ending_inventory = avg,
                       total_shortage_units = total_shortage s,
                       orders_placed = placed_orders s\<rparr>))"

text \<open>\<^verbatim>\<open>run_validation\<close> (lines 138 to 193).\<close>

definition run_validation ::
    "real list \<Rightarrow> RetailDecisionAgent \<Rightarrow> real \<Rightarrow> int \<Rightarrow> error + SimulationMetrics" where
  "run_validation demand agent initial_inventory lead_time_days =
     (case sim_loop agent demand lead_time_days (sim_days demand)
             (initial_state initial_inventory) of
        Inl e \<Rightarrow> Inl e
      | Inr s \<Rightarrow> metrics_of demand s)"

text \<open>The state of the loop when day \<open>t\<close> begins: the days from \<^verbatim>\<open>start\<close> up to
  \<open>t - 1\<close> have run.\<close>

definition state_at ::
    "RetailDecisionAgent \<Rightarrow> real list \<Rightarrow> int \<Rightarrow> real \<Rightarrow> nat \<Rightarrow> error + sim_state" where
  "state_at agent demand lead_time_days initial_inventory t =
     sim_loop agent demand lead_time_days [start_day demand..<t]
       (initial_state initial_inventory)"

text \<open>The agent the command line builds when no option is given.\<close>

definition default_agent :: RetailDecisionAgent where
  "default_agent =
     \<lparr>service_level = 0.95, review_period_days = 7, alpha = 0.35, demand_window = 28\<rparr>"

text \<open>Invariant of the loop: the stock on hand and the holding total are not negative,
  and every quantity in transit is positive.\<close>

definition stock_ok :: "sim_state \<Rightarrow> bool" where
  "stock_ok s \<longleftrightarrow>
     0 \<le> inventory s \<and> 0 \<le> total_holding s \<and> (\<forall>(a, q) \<in> set (pipeline s). 0 < q)"

text \<open>Invariant of the loop when the lead time is not positive: at the start of day
  \<open>t\<close> every entry of the pipeline is due on an earlier day.\<close>

definition overdue :: "nat \<Rightarrow> sim_state \<Rightarrow> bool" where
  "overdue t s \<longleftrightarrow> (\<forall>(a, q) \<in> set (pipeline s). a < int t)"

text \<open>Invariant of the loop when the lead time \<open>L\<close> is at least one day: at the start
  of day \<open>t\<close> the entries of the pipeline are due on distinct days, from \<open>t\<close> to
  \<open>t + L - 1\<close>.\<close>

definition in_transit :: "int \<Rightarrow> nat \<Rightarrow> sim_state \<Rightarrow> bool" where
  "in_transit L t s \<longleftrightarrow>
     distinct (map fst (pipeline s))
     \<and> (\<forall>(a, q) \<in> set (pipeline s). int t \<le> a \<and> a < int t + L)"

section \<open>The service-level table and the library functions\<close>

lemma SERVICE_Z_dom: "dom SERVICE_Z = {0.80, 0.85, 0.90, 0.95, 0.97, 0.99}"
  by (auto simp: SERVICE_Z_def SERVICE_Z_items_def split: if_splits)

lemma SERVICE_Z_sorted_keys:
  "sort (map fst SERVICE_Z_items) = [0.80, 0.85, 0.90, 0.95, 0.97, 0.99]"
  by (simp add: SERVICE_Z_items_def)

subsection \<open>Rounding to binary64\<close>

lemma round_half_even_of_int: "round_half_even (real_of_int n) = n"
  by (simp add: round_half_even_def)

lemma round_half_even_Ints: "x \<in> \<int> \<Longrightarrow> real_of_int (round_half_even x) = x"
  by (auto simp: Ints_def round_half_even_of_int)

lemma round_half_even_nonneg: "0 \<le> x \<Longrightarrow> 0 \<le> round_half_even x"
  by (auto simp: round_half_even_def Let_def)

lemma round_half_even_nonpos: "x \<le> 0 \<Longrightarrow> round_half_even x \<le> 0"
proof -
  assume x: "x \<le> 0"
  show ?thesis
  proof (cases "x = 0")
    case True
    then show ?thesis by (simp add: round_half_even_def)
  next
    case False
    with x have "\<lfloor>x\<rfloor> \<le> - 1" by (simp add: floor_le_iff)
    moreover have "x - real_of_int \<lfloor>x\<rfloor> < 1" by linarith
    ultimately show ?thesis
      by (auto simp: round_half_even_def Let_def)
  qed
qed

lemma binary64_nonneg: "0 \<le> x \<Longrightarrow> 0 \<le> binary64 x"
  by (auto simp: binary64_def Let_def intro!: mult_nonneg_nonneg round_half_even_nonneg)

lemma binary64_nonpos: "x \<le> 0 \<Longrightarrow> binary64 x \<le> 0"
proof -
  assume x: "x \<le> 0"
  have "round_half_even (x / 2 powr e) \<le> 0" for e
    using x by (intro round_half_even_nonpos) (simp add: divide_nonpos_nonneg)
  then show ?thesis
    by (auto simp: binary64_def Let_def mult_le_0_iff)
qed


lemma binary64_Ints:
  assumes "x \<in> \<int>" and "\<bar>x\<bar> < 2 ^ 53"
  shows "binary64 x = x"
proof (cases "x = 0")
  case True
  then show ?thesis by (simp add: binary64_def)
next
  case False
  with assms(1) have one: "1 \<le> \<bar>x\<bar>" by (auto simp: Ints_def)
  define k where "k = \<lfloor>log 2 \<bar>x\<bar>\<rfloor>"
  have k0: "0 \<le> k" unfolding k_def using one by simp
  have "log 2 \<bar>x\<bar> < 53"
    using assms(2) one by (simp add: log_less_iff)
  then have k52: "k \<le> 52" unfolding k_def by linarith
  define j where "j = nat (52 - k)"
  have e: "max (k - 52) (- 1074) = k - 52" using k0 by simp
  have p: "2 powr real_of_int (k - 52) = 1 / 2 ^ j"
    using powr_real_of_int [of 2 "k - 52"] k52
    by (cases "k = 52") (simp_all add: j_def inverse_eq_divide)
  have "x * 2 ^ j \<in> \<int>" using assms(1) by simp
  then have r: "real_of_int (round_half_even (x * 2 ^ j)) = x * 2 ^ j"
    by (rule round_half_even_Ints)
  have "binary64 x = real_of_int (round_half_even (x / 2 powr real_of_int (k - 52)))
             * 2 powr real_of_int (k - 52)"
    unfolding binary64_def Let_def k_def [symmetric] e using False by simp
  also have "\<dots> = x" unfolding p using r by simp
  finally show ?thesis .
qed



subsection \<open>The decision function returns\<close>

lemma recent_std_defined: "\<exists>d\<ge>0. recent_std xs = Inr d"
  by (auto simp: recent_std_def statistics_pstdev_def Let_def intro!: sum_list_nonneg divide_nonneg_nonneg)

lemma recommend_defined:
  assumes "service_level self \<in> dom SERVICE_Z"
  shows "\<exists>dec. recommend self h oh oo lth = Inr dec"
proof -
  obtain d where d: "recent_std (if h \<noteq> [] then slice_from (- demand_window self) h else []) = Inr d"
    using recent_std_defined by blast
  from assms obtain z where "SERVICE_Z (service_level self) = Some z" by auto
  then show ?thesis
    using d
    by (auto simp: recommend_def Let_def statistics_mean_def math_sqrt_def split: option.splits)
qed

lemma recommend_qty:
  assumes "recommend self h oh oo lth = Inr dec"
  shows "recommended_order_qty dec =
           \<lceil>max 0 (binary64 (target_stock dec - binary64 (oh + oo)))\<rceil>"
  using assms
  by (auto simp: recommend_def Let_def math_ceil_def split: sum.splits option.splits if_splits)

lemma recommend_lead_time:
  assumes "recommend self h oh oo lth = Inr dec"
  shows "estimated_lead_time_days dec =
           (case lth of None \<Rightarrow> 7
            | Some xs \<Rightarrow> if xs = [] then 7 else max 1 (sum_list xs / real (length xs)))"
  using assms
  by (auto simp: recommend_def Let_def statistics_mean_def split: sum.splits option.splits if_splits)

lemma recommend_fields:
  assumes "recommend self h oh oo lth = Inr dec"
  shows "forecast_demand dec =
           exp_smoothing_forecast self (if h \<noteq> [] then slice_from (- demand_window self) h else [])"
    and "recent_std (if h \<noteq> [] then slice_from (- demand_window self) h else []) = Inr (demand_std dec)"
    and "SERVICE_Z (service_level self) = Some z \<Longrightarrow> safety_stock dec = z * demand_std dec * sqrt (estimated_lead_time_days dec)"
    and "reorder_point dec = forecast_demand dec * estimated_lead_time_days dec + safety_stock dec"
    and "target_stock dec = forecast_demand dec * (estimated_lead_time_days dec + real_of_int (review_period_days self)) + safety_stock dec"
    and "1 \<le> estimated_lead_time_days dec"
  using assms
  by (auto simp: recommend_def Let_def statistics_mean_def math_sqrt_def split: sum.splits option.splits if_splits)

lemma exp_smoothing_forecast_replicate:
  "exp_smoothing_forecast self (replicate n c) = (if n = 0 then 0 else max 0 c)"
proof (cases n)
  case 0
  then show ?thesis by (simp add: exp_smoothing_forecast_def)
next
  case (Suc k)
  have "alpha self * c + (1 - alpha self) * c = c" by (simp add: algebra_simps)
  then have "foldl (\<lambda>level v. alpha self * v + (1 - alpha self) * level) c (replicate k c) = c"
    by (induction k) auto
  with Suc show ?thesis by (simp add: exp_smoothing_forecast_def)
qed

lemma sum_list_replicate_real: "sum_list (replicate n (c::real)) = real n * c"
  by (induction n) (auto simp: algebra_simps)

lemma recent_std_replicate: "recent_std (replicate n c) = Inr 0"
  by (auto simp: recent_std_def statistics_pstdev_def Let_def sum_list_replicate_real)

lemma slice_from_window:
  "0 < w \<Longrightarrow> slice_from (- w) xs = drop (length xs - nat w) xs"
  by (auto simp: slice_from_def nat_diff_distrib' intro: arg_cong [where f = "\<lambda>k. drop k xs"])

lemma default_agent_valid: "service_level default_agent \<in> dom SERVICE_Z"
  by (simp add: default_agent_def SERVICE_Z_dom)

text \<open>The decision of the default agent on a constant history and a single lead-time
  observation.\<close>

lemma recommend_default_constant:
  assumes "0 < n" and "0 \<le> c"
  shows "recommend default_agent (replicate n c) oh oo (Some [l]) =
           Inr \<lparr>forecast_demand = c, demand_std = 0, estimated_lead_time_days = max 1 l,
                safety_stock = 0, reorder_point = c * max 1 l,
                target_stock = c * (max 1 l + 7),
                recommended_order_qty =
                  \<lceil>max 0 (binary64 (c * (max 1 l + 7) - binary64 (oh + oo)))\<rceil>\<rparr>"
proof -
  have z: "SERVICE_Z (95 / 100) = Some (165 / 100)"
    by (simp add: SERVICE_Z_def SERVICE_Z_items_def)
  have n: "n - (n - 28) \<noteq> 0" using assms(1) by simp
  have "slice_from (- 28) (replicate n c) = replicate (n - (n - 28)) c"
    by (simp add: slice_from_window)
  with assms n z show ?thesis
    by (simp add: recommend_def default_agent_def exp_smoothing_forecast_replicate
        recent_std_replicate statistics_mean_def math_sqrt_def math_ceil_def Let_def)
qed

section \<open>The decision function\<close>

text \<open>
  Claim C1. The agent built with any supported service level, a review period of 7
  days, \<open>\<alpha> = 0.35\<close> and a window of 28, called on 28 observations all equal to 20 and
  on a lead-time history whose mean is 5, returns a decision with forecast 20, standard
  deviation 0, safety stock 0, lead time 5, reorder point 100, 12 protection days and
  target stock 240, whatever the stock on hand and on order.
\<close>

theorem C1_scenario_A:
  assumes "SERVICE_Z sl = Some z"
    and "xs \<noteq> []" and "sum_list xs / real (length xs) = 5"
  shows "\<exists>dec. recommend \<lparr>service_level = sl, review_period_days = 7, alpha = 0.35,
                            demand_window = 28\<rparr>
                  (replicate 28 20) oh oo (Some xs) = Inr dec
           \<and> forecast_demand dec = 20 \<and> demand_std dec = 0 \<and> safety_stock dec = 0
           \<and> estimated_lead_time_days dec = 5
           \<and> reorder_point dec = 100
           \<and> estimated_lead_time_days dec + real_of_int 7 = 12
           \<and> target_stock dec = 240"
proof -
  let ?agent = "\<lparr>service_level = sl, review_period_days = 7, alpha = 0.35, demand_window = 28\<rparr>"
  have v: "service_level ?agent \<in> dom SERVICE_Z" using assms(1) by auto
  have z: "SERVICE_Z (service_level ?agent) = Some z" using assms(1) by simp
  obtain dec where dec: "recommend ?agent (replicate 28 20) oh oo (Some xs) = Inr dec"
    using recommend_defined [OF v] by blast
  have w: "(if replicate 28 (20::real) \<noteq> [] then slice_from (- demand_window ?agent) (replicate 28 20) else [])
             = replicate 28 20"
    by (simp add: slice_from_window)
  have f: "forecast_demand dec = 20"
    using recommend_fields(1) [OF dec] unfolding w
    by (simp add: exp_smoothing_forecast_replicate)
  have d: "demand_std dec = 0"
    using recommend_fields(2) [OF dec] unfolding w by (simp add: recent_std_replicate)
  have l: "estimated_lead_time_days dec = 5"
    using recommend_lead_time [OF dec] assms(2,3) by simp
  have s: "safety_stock dec = 0"
    using recommend_fields(3) [OF dec z] d by simp
  have r: "reorder_point dec = 100"
    using recommend_fields(4) [OF dec] f s l by simp
  have t: "target_stock dec = 240"
    using recommend_fields(5) [OF dec] f s l by simp
  from dec f d s l r t show ?thesis by auto
qed

theorem C1_scenario_A_witness:
  "SERVICE_Z 0.99 = Some 2.33 \<and> [5::real] \<noteq> [] \<and> sum_list [5::real] / real (length [5::real]) = 5
   \<and> (\<exists>dec. recommend \<lparr>service_level = 0.99, review_period_days = 7, alpha = 0.35,
                            demand_window = 28\<rparr>
                  (replicate 28 20) 120 20 (Some [5]) = Inr dec
           \<and> forecast_demand dec = 20 \<and> demand_std dec = 0 \<and> safety_stock dec = 0
           \<and> estimated_lead_time_days dec = 5
           \<and> reorder_point dec = 100
           \<and> estimated_lead_time_days dec + real_of_int 7 = 12
           \<and> target_stock dec = 240)"
proof -
  have a: "SERVICE_Z 0.99 = Some 2.33" by (simp add: SERVICE_Z_def SERVICE_Z_items_def)
  have b: "[5::real] \<noteq> []" by simp
  have c: "sum_list [5::real] / real (length [5::real]) = 5" by simp
  show ?thesis using a b c C1_scenario_A [OF a b c, of 120 20] by simp
qed




text \<open>
  Claim C6. In every call of \<^verbatim>\<open>recommend\<close> on a constructed agent the estimated lead
  time is 7 when the lead-time history is absent or empty, and otherwise the arithmetic
  mean of the history, raised to 1 when the mean is below 1.
\<close>

theorem C6_lead_time_estimate:
  assumes "service_level self \<in> dom SERVICE_Z"
  shows "\<exists>dec. recommend self h oh oo lth = Inr dec
           \<and> estimated_lead_time_days dec =
               (case lth of
                  None \<Rightarrow> 7
                | Some xs \<Rightarrow> if xs = [] then 7 else max 1 (sum_list xs / real (length xs)))"
  using recommend_defined [OF assms] recommend_lead_time by blast

theorem C6_lead_time_estimate_witness:
  "service_level default_agent \<in> dom SERVICE_Z
   \<and> (\<exists>dec. recommend default_agent [] 0 0 None = Inr dec \<and> estimated_lead_time_days dec = 7)
   \<and> (\<exists>dec. recommend default_agent [] 0 0 (Some []) = Inr dec \<and> estimated_lead_time_days dec = 7)
   \<and> (\<exists>dec. recommend default_agent [] 0 0 (Some [3, 5, 10]) = Inr dec
          \<and> estimated_lead_time_days dec = 6)
   \<and> (\<exists>dec. recommend default_agent [] 0 0 (Some [0, 1]) = Inr dec
          \<and> estimated_lead_time_days dec = 1)"
  using default_agent_valid
    C6_lead_time_estimate [OF default_agent_valid, of "[]" 0 0 None]
    C6_lead_time_estimate [OF default_agent_valid, of "[]" 0 0 "Some []"]
    C6_lead_time_estimate [OF default_agent_valid, of "[]" 0 0 "Some [3, 5, 10]"]
    C6_lead_time_estimate [OF default_agent_valid, of "[]" 0 0 "Some [0, 1]"]
  by simp

text \<open>
  Claim C7. On an empty demand history, with non-negative stock on hand and on order,
  \<^verbatim>\<open>recommend\<close> raises nothing and returns forecast 0, standard deviation 0, safety
  stock 0, reorder point 0, target stock 0 and order quantity 0.
\<close>

theorem C7_empty_history:
  assumes "service_level self \<in> dom SERVICE_Z" and "0 \<le> oh" and "0 \<le> oo"
  shows "\<exists>dec. recommend self [] oh oo lth = Inr dec
           \<and> forecast_demand dec = 0 \<and> demand_std dec = 0 \<and> safety_stock dec = 0
           \<and> reorder_point dec = 0 \<and> target_stock dec = 0
           \<and> recommended_order_qty dec = 0"
proof -
  obtain dec where dec: "recommend self [] oh oo lth = Inr dec"
    using recommend_defined [OF assms(1)] by blast
  from assms(1) obtain z where z: "SERVICE_Z (service_level self) = Some z" by auto
  have f: "forecast_demand dec = 0"
    using recommend_fields(1) [OF dec] by (simp add: exp_smoothing_forecast_def)
  have d: "demand_std dec = 0"
    using recommend_fields(2) [OF dec] by (simp add: recent_std_def)
  have s: "safety_stock dec = 0"
    using recommend_fields(3) [OF dec z] d by simp
  have r: "reorder_point dec = 0"
    using recommend_fields(4) [OF dec] f s by simp
  have t: "target_stock dec = 0"
    using recommend_fields(5) [OF dec] f s by simp
  have "0 \<le> binary64 (oh + oo)"
    using assms(2,3) by (intro binary64_nonneg) simp
  then have "binary64 (target_stock dec - binary64 (oh + oo)) \<le> 0"
    using t by (intro binary64_nonpos) simp
  then have "max 0 (binary64 (target_stock dec - binary64 (oh + oo))) = 0"
    by simp
  then have "recommended_order_qty dec = 0"
    using recommend_qty [OF dec] by simp
  with dec f d s r t show ?thesis by blast
qed

theorem C7_empty_history_witness:
  "service_level default_agent \<in> dom SERVICE_Z \<and> (0::real) \<le> 120 \<and> (0::real) \<le> 20
   \<and> (\<exists>dec. recommend default_agent [] 120 20 None = Inr dec
          \<and> forecast_demand dec = 0 \<and> demand_std dec = 0 \<and> safety_stock dec = 0
          \<and> reorder_point dec = 0 \<and> target_stock dec = 0
          \<and> recommended_order_qty dec = 0)"
proof -
  have a: "(0::real) \<le> 120" and b: "(0::real) \<le> 20" by simp_all
  show ?thesis
    using default_agent_valid a b C7_empty_history [OF default_agent_valid a b, of None]
    by simp
qed

section \<open>The constructor\<close>

text \<open>
  Claim C5. A service level that is not a key of the table makes the constructor raise
  the \<^verbatim>\<open>ValueError\<close> whose message enumerates 0.8, 0.85, 0.9, 0.95, 0.97, 0.99; a service
  level that is a key makes it return an agent. The keys are exactly those six values,
  and 0.93 is not one of them.
\<close>

theorem C5_service_level_validation:
  "(sl \<notin> dom SERVICE_Z \<longrightarrow>
      RetailDecisionAgent_init sl rp a w =
        Inl (ValueError_service_level [0.80, 0.85, 0.90, 0.95, 0.97, 0.99]))
   \<and> (sl \<in> dom SERVICE_Z \<longrightarrow> (\<exists>agent. RetailDecisionAgent_init sl rp a w = Inr agent))
   \<and> dom SERVICE_Z = {0.80, 0.85, 0.90, 0.95, 0.97, 0.99}
   \<and> 0.93 \<notin> dom SERVICE_Z"
proof -
  have "sl \<notin> dom SERVICE_Z \<longrightarrow>
      RetailDecisionAgent_init sl rp a w =
        Inl (ValueError_service_level [0.80, 0.85, 0.90, 0.95, 0.97, 0.99])"
    using SERVICE_Z_sorted_keys by (auto simp: RetailDecisionAgent_init_def)
  moreover have "sl \<in> dom SERVICE_Z \<longrightarrow> (\<exists>agent. RetailDecisionAgent_init sl rp a w = Inr agent)"
    by (auto simp: RetailDecisionAgent_init_def)
  moreover have "(0.93::real) \<notin> dom SERVICE_Z"
    by (simp add: SERVICE_Z_dom)
  ultimately show ?thesis using SERVICE_Z_dom by blast
qed

theorem C5_service_level_validation_witness:
  "0.93 \<notin> dom SERVICE_Z
   \<and> RetailDecisionAgent_init 0.93 7 0.35 28 =
        Inl (ValueError_service_level [0.80, 0.85, 0.90, 0.95, 0.97, 0.99])
   \<and> 0.95 \<in> dom SERVICE_Z
   \<and> (\<exists>agent. RetailDecisionAgent_init 0.95 7 0.35 28 = Inr agent)"
  using C5_service_level_validation [of "0.93" 7 "0.35" 28]
    C5_service_level_validation [of "0.95" 7 "0.35" 28]
  by simp

text \<open>
  Claim C8 says that the constructor rejects a negative review period. It does not: the
  constructor checks the service level only. With the supported level 0.95 and a review
  period of \<open>-1\<close> it returns the agent.
\<close>

theorem C8_counterexample:
  "0.95 \<in> dom SERVICE_Z \<and> (-1::int) < 0
   \<and> RetailDecisionAgent_init 0.95 (-1) 0.35 28 =
        Inr \<lparr>service_level = 0.95, review_period_days = -1, alpha = 0.35, demand_window = 28\<rparr>"
  by (simp add: RetailDecisionAgent_init_def SERVICE_Z_def SERVICE_Z_items_def)

text \<open>
  Claim C8, amended. The constructor does not validate the review period: with a
  supported service level it returns the agent for every review period, negative ones
  included, and stores the value unchanged.
\<close>

theorem C8_review_period_not_validated:
  assumes "sl \<in> dom SERVICE_Z"
  shows "RetailDecisionAgent_init sl rp a w =
           Inr \<lparr>service_level = sl, review_period_days = rp, alpha = a, demand_window = w\<rparr>"
  using assms by (auto simp: RetailDecisionAgent_init_def)

theorem C8_review_period_not_validated_witness:
  "0.9 \<in> dom SERVICE_Z
   \<and> RetailDecisionAgent_init 0.9 (-3) 0.35 28 =
        Inr \<lparr>service_level = 0.9, review_period_days = -3, alpha = 0.35, demand_window = 28\<rparr>"
proof -
  have k: "(0.9::real) \<in> dom SERVICE_Z" by (simp add: SERVICE_Z_dom)
  show ?thesis using k C8_review_period_not_validated [OF k, of "-3" "0.35" 28] by simp
qed

section \<open>The simulator: one day, the loop and its invariants\<close>

lemma sim_arrivals_pipeline:
  "pipeline (sim_arrivals day s) = filter (\<lambda>(a, q). a \<noteq> int day) (pipeline s)"
  by (simp add: sim_arrivals_def Let_def)

lemma sim_arrivals_inventory:
  "inventory (sim_arrivals day s) =
     inventory s + real_of_int (sum_list (arrivals_on day (pipeline s)))"
  by (simp add: sim_arrivals_def Let_def)

lemma sim_arrivals_others:
  "total_holding (sim_arrivals day s) = total_holding s"
  "placed_orders (sim_arrivals day s) = placed_orders s"
  "stockout_days (sim_arrivals day s) = stockout_days s"
  "total_shortage (sim_arrivals day s) = total_shortage s"
  by (simp_all add: sim_arrivals_def Let_def)

lemma sim_arrivals_none:
  assumes "\<forall>(a, q) \<in> set (pipeline s). a \<noteq> int day"
  shows "sim_arrivals day s = s"
proof -
  have f: "filter (\<lambda>(a, q). a \<noteq> int day) (pipeline s) = pipeline s"
    using assms by (auto intro!: filter_True)
  have "filter (\<lambda>(a, q). a = int day) (pipeline s) = []"
    using assms by (auto simp: filter_empty_conv)
  then have "arrivals_on day (pipeline s) = []" by (simp add: arrivals_on_def)
  with f show ?thesis by (simp add: sim_arrivals_def Let_def)
qed

lemma sim_reorder_cases:
  assumes "sim_reorder agent demand L day s = Inr s'"
  shows "s' = s \<or> (\<exists>q>0. s' = s\<lparr>pipeline := pipeline s @ [(int day + L, q)],
                                  placed_orders := placed_orders s + 1\<rparr>)"
  using assms
  by (auto simp: sim_reorder_def Let_def split: sum.splits if_splits)

lemma sim_reorder_defined:
  assumes "service_level agent \<in> dom SERVICE_Z"
  shows "\<exists>s'. sim_reorder agent demand L day s = Inr s'"
proof -
  obtain dec where "recommend agent (take day demand) (inventory s)
      (real_of_int (on_order_of (pipeline s))) (Some [real_of_int L]) = Inr dec"
    using recommend_defined [OF assms] by blast
  then show ?thesis by (simp add: sim_reorder_def Let_def)
qed

lemma sim_demand_defined:
  "day < length demand \<Longrightarrow> \<exists>s'. sim_demand demand day s = Inr s'"
  by (simp add: sim_demand_def Let_def)

lemma sim_demand_fields:
  assumes "sim_demand demand day s = Inr s'"
  shows "pipeline s' = pipeline s"
    and "placed_orders s' = placed_orders s"
    and "inventory s' = (if demand ! day \<le> inventory s then inventory s - demand ! day else 0)"
    and "0 \<le> inventory s'"
    and "total_holding s' = total_holding s + inventory s'"
    and "day < length demand"
  using assms by (auto simp: sim_demand_def Let_def split: if_splits)

lemma sim_day_Inr:
  assumes "sim_day agent demand L day s = Inr s'"
  obtains s1 where "sim_reorder agent demand L day (sim_arrivals day s) = Inr s1"
    and "sim_demand demand day s1 = Inr s'"
  using assms by (auto simp: sim_day_def split: sum.splits)

lemma sim_day_pipeline:
  assumes "sim_day agent demand L day s = Inr s'"
  shows "pipeline s' = filter (\<lambda>(a, q). a \<noteq> int day) (pipeline s)
       \<or> (\<exists>q>0. pipeline s' = filter (\<lambda>(a, q). a \<noteq> int day) (pipeline s) @ [(int day + L, q)])"
proof -
  from assms obtain s1 where r: "sim_reorder agent demand L day (sim_arrivals day s) = Inr s1"
    and d: "sim_demand demand day s1 = Inr s'" by (rule sim_day_Inr)
  from sim_reorder_cases [OF r] sim_demand_fields(1) [OF d] show ?thesis
    by (auto simp: sim_arrivals_pipeline)
qed

lemma sim_loop_append:
  "sim_loop agent demand L (xs @ ys) s =
     (case sim_loop agent demand L xs s of
        Inl e \<Rightarrow> Inl e
      | Inr s' \<Rightarrow> sim_loop agent demand L ys s')"
  by (induction xs arbitrary: s) (auto split: sum.splits)

lemma sim_loop_defined:
  assumes "service_level agent \<in> dom SERVICE_Z" and "\<forall>d \<in> set days. d < length demand"
  shows "\<exists>s'. sim_loop agent demand L days s = Inr s'"
  using assms(2)
proof (induction days arbitrary: s)
  case Nil
  then show ?case by simp
next
  case (Cons d days)
  obtain s1 where r: "sim_reorder agent demand L d (sim_arrivals d s) = Inr s1"
    using sim_reorder_defined [OF assms(1)] by blast
  from Cons.prems obtain s2 where d: "sim_demand demand d s1 = Inr s2"
    using sim_demand_defined [of d demand s1] by auto
  from Cons.IH [of s2] Cons.prems obtain s3 where "sim_loop agent demand L days s2 = Inr s3"
    by auto
  with r d show ?case by (simp add: sim_day_def)
qed

lemma state_at_start:
  "t \<le> start_day demand \<Longrightarrow> state_at agent demand L inv0 t = Inr (initial_state inv0)"
  by (simp add: state_at_def)

lemma state_at_Suc:
  assumes "start_day demand \<le> t"
  shows "state_at agent demand L inv0 (Suc t) =
           (case state_at agent demand L inv0 t of
              Inl e \<Rightarrow> Inl e
            | Inr s \<Rightarrow> sim_day agent demand L t s)"
proof -
  have "[start_day demand..<Suc t] = [start_day demand..<t] @ [t]"
    using assms by simp
  then show ?thesis
    by (simp add: state_at_def sim_loop_append split: sum.splits)
qed

lemma state_at_Suc_Inr:
  assumes "start_day demand \<le> t" and "state_at agent demand L inv0 (Suc t) = Inr s'"
  obtains s where "state_at agent demand L inv0 t = Inr s" and "sim_day agent demand L t s = Inr s'"
  using assms by (auto simp: state_at_Suc split: sum.splits)

lemma state_at_earlier:
  assumes "state_at agent demand L inv0 t = Inr s" and "u \<le> t"
  shows "\<exists>s'. state_at agent demand L inv0 u = Inr s'"
  using assms
proof (induction t arbitrary: s)
  case 0
  then show ?case by simp
next
  case (Suc t)
  show ?case
  proof (cases "u = Suc t")
    case True
    with Suc.prems show ?thesis by blast
  next
    case False
    with Suc.prems have u: "u \<le> t" by simp
    show ?thesis
    proof (cases "start_day demand \<le> t")
      case True
      from state_at_Suc_Inr [OF True Suc.prems(1)] obtain s0
        where "state_at agent demand L inv0 t = Inr s0" by blast
      from Suc.IH [OF this u] show ?thesis .
    next
      case False
      with u have "u \<le> start_day demand" by simp
      then show ?thesis by (simp add: state_at_start)
    qed
  qed
qed

lemma state_at_defined:
  assumes "service_level agent \<in> dom SERVICE_Z" and "t \<le> length demand"
  shows "\<exists>s. state_at agent demand L inv0 t = Inr s"
  unfolding state_at_def using assms by (intro sim_loop_defined) auto

lemma state_at_invariant:
  assumes init: "\<And>t. P t (initial_state inv0)"
    and step: "\<And>t s s'. start_day demand \<le> t \<Longrightarrow> P t s
                 \<Longrightarrow> sim_day agent demand L t s = Inr s' \<Longrightarrow> P (Suc t) s'"
    and reach: "state_at agent demand L inv0 t = Inr s"
  shows "P t s"
  using reach
proof (induction t arbitrary: s)
  case 0
  then show ?case using init by (simp add: state_at_def)
next
  case (Suc t)
  show ?case
  proof (cases "start_day demand \<le> t")
    case True
    from state_at_Suc_Inr [OF True Suc.prems] obtain s0
      where a: "state_at agent demand L inv0 t = Inr s0"
        and b: "sim_day agent demand L t s0 = Inr s" by blast
    from step [OF True Suc.IH [OF a] b] show ?thesis .
  next
    case False
    then have "Suc t \<le> start_day demand" by simp
    from state_at_start [OF this] Suc.prems init show ?thesis by simp
  qed
qed

lemma sim_days_final: "state_at agent demand L inv0 (length demand) =
    sim_loop agent demand L (sim_days demand) (initial_state inv0)"
  by (simp add: state_at_def sim_days_def)

subsection \<open>The returned metrics\<close>

lemma metrics_of_defined: "\<exists>m. metrics_of demand s = Inr m"
  by (simp add: metrics_of_def Let_def py_truediv_def)

lemma metrics_of_fields:
  assumes "metrics_of demand s = Inr m"
  shows "periods m = int (length demand) - int (start_day demand)"
    and "stockout_rate m =
           (if periods m = 0 then 0 else real_of_int (stockout_days s) / real_of_int (periods m))"
    and "avg_ending_inventory m =
           (if periods m = 0 then 0 else total_holding s / real_of_int (periods m))"
    and "total_shortage_units m = total_shortage s"
    and "orders_placed m = placed_orders s"
  using assms by (auto simp: metrics_of_def Let_def py_truediv_def split: if_splits)

lemma run_validation_defined:
  assumes "service_level agent \<in> dom SERVICE_Z"
  shows "\<exists>m. run_validation demand agent inv0 L = Inr m"
proof -
  obtain s where "sim_loop agent demand L (sim_days demand) (initial_state inv0) = Inr s"
    using sim_loop_defined [OF assms, of "sim_days demand" demand L "initial_state inv0"]
    by (auto simp: sim_days_def)
  with metrics_of_defined [of demand s] show ?thesis by (simp add: run_validation_def)
qed

lemma run_validation_metrics:
  assumes "run_validation demand agent inv0 L = Inr m"
  shows "\<exists>s. sim_loop agent demand L (sim_days demand) (initial_state inv0) = Inr s
           \<and> periods m = int (length demand) - int (max 30 (min 45 (length demand div 3)))
           \<and> stockout_rate m =
               (if periods m = 0 then 0
                else real_of_int (stockout_days s) / real_of_int (periods m))
           \<and> avg_ending_inventory m =
               (if periods m = 0 then 0 else total_holding s / real_of_int (periods m))
           \<and> total_shortage_units m = total_shortage s
           \<and> orders_placed m = placed_orders s"
proof -
  from assms obtain s
    where s: "sim_loop agent demand L (sim_days demand) (initial_state inv0) = Inr s"
      and m: "metrics_of demand s = Inr m"
    by (auto simp: run_validation_def split: sum.splits)
  from metrics_of_fields [OF m] s show ?thesis by (simp add: start_day_def)
qed

lemma start_day_le:
  assumes "30 \<le> length demand"
  shows "start_day demand \<le> length demand"
proof -
  have "min 45 (length demand div 3) \<le> length demand" by (simp add: min_def) linarith
  with assms show ?thesis by (simp add: start_day_def)
qed

lemma run_validation_periods:
  assumes "run_validation demand agent inv0 L = Inr m"
    and "start_day demand \<le> length demand"
  shows "periods m = int (length (sim_days demand))"
proof -
  from assms(1) obtain s where "metrics_of demand s = Inr m"
    by (auto simp: run_validation_def split: sum.splits)
  from metrics_of_fields(1) [OF this] assms(2) show ?thesis by (simp add: sim_days_def)
qed

lemma short_series_holding:
  assumes "length demand \<le> start_day demand"
    and "state_at agent demand L inv0 (length demand) = Inr s"
  shows "total_holding s = 0"
  using assms by (auto simp: state_at_start initial_state_def)

subsection \<open>Stock and quantities in transit stay non-negative\<close>

lemma arrivals_on_nonneg:
  assumes "\<forall>(a, q) \<in> set pl. 0 < q"
  shows "0 \<le> sum_list (arrivals_on day pl)"
proof -
  have "0 \<le> q" if "q \<in> set (arrivals_on day pl)" for q
    using that assms by (fastforce simp: arrivals_on_def)
  then show ?thesis by (rule sum_list_nonneg)
qed

lemma stock_ok_initial: "0 \<le> inv0 \<Longrightarrow> stock_ok (initial_state inv0)"
  by (simp add: stock_ok_def initial_state_def)

lemma stock_ok_arrivals: "stock_ok s \<Longrightarrow> stock_ok (sim_arrivals day s)"
  using arrivals_on_nonneg [of "pipeline s" day]
  by (auto simp: stock_ok_def sim_arrivals_pipeline sim_arrivals_inventory sim_arrivals_others)

lemma stock_ok_reorder:
  assumes "stock_ok s" and "sim_reorder agent demand L day s = Inr s'"
  shows "stock_ok s'"
  using sim_reorder_cases [OF assms(2)] assms(1) by (auto simp: stock_ok_def)

lemma stock_ok_demand:
  assumes "stock_ok s" and "sim_demand demand day s = Inr s'"
  shows "stock_ok s'"
  using sim_demand_fields(1,4,5) [OF assms(2)] assms(1) by (auto simp: stock_ok_def)

lemma stock_ok_day:
  assumes "stock_ok s" and "sim_day agent demand L day s = Inr s'"
  shows "stock_ok s'"
proof -
  from assms(2) obtain s1 where r: "sim_reorder agent demand L day (sim_arrivals day s) = Inr s1"
    and d: "sim_demand demand day s1 = Inr s'" by (rule sim_day_Inr)
  from stock_ok_demand [OF stock_ok_reorder [OF stock_ok_arrivals [OF assms(1)] r] d]
  show ?thesis .
qed

lemma stock_ok_state_at:
  assumes "0 \<le> inv0" and "state_at agent demand L inv0 t = Inr s"
  shows "stock_ok s"
  using stock_ok_initial [OF assms(1)] stock_ok_day assms(2)
  by (rule state_at_invariant [where P = "\<lambda>t. stock_ok"])

subsection \<open>Orders in the pipeline\<close>

lemma on_order_of_append: "on_order_of (xs @ ys) = on_order_of xs + on_order_of ys"
  by (simp add: on_order_of_def)

lemma on_order_of_split:
  "on_order_of pl =
     sum_list (arrivals_on day pl) + on_order_of (filter (\<lambda>(a, q). a \<noteq> int day) pl)"
  by (induction pl) (auto simp: on_order_of_def arrivals_on_def)

lemma order_placed:
  assumes "sim_reorder agent demand L d s = Inr s1"
    and "pipeline s1 = pipeline s @ [(a, q)]"
  shows "a = int d + L" and "0 < q"
  using sim_reorder_cases [OF assms(1)] assms(2) by auto

lemma state_after_order:
  assumes "start_day demand \<le> d"
    and "state_at agent demand L inv0 d = Inr sd"
    and "sim_reorder agent demand L d (sim_arrivals d sd) = Inr s1"
    and "state_at agent demand L inv0 (Suc d) = Inr se"
  shows "pipeline se = pipeline s1"
proof -
  from assms(2,4) have "sim_day agent demand L d sd = Inr se"
    by (simp add: state_at_Suc [OF assms(1)])
  with assms(3) have "sim_demand demand d s1 = Inr se" by (simp add: sim_day_def)
  then show ?thesis by (rule sim_demand_fields(1))
qed

lemma overdue_filter:
  assumes "overdue t s"
  shows "filter (\<lambda>(a, q). a \<noteq> int t) (pipeline s) = pipeline s"
  using assms by (auto simp: overdue_def intro!: filter_True)

lemma overdue_arrivals:
  assumes "overdue t s"
  shows "sim_arrivals t s = s" and "arrivals_on t (pipeline s) = []"
proof -
  have n: "\<forall>(a, q) \<in> set (pipeline s). a \<noteq> int t"
    using assms by (auto simp: overdue_def)
  then show "sim_arrivals t s = s" by (rule sim_arrivals_none)
  from n show "arrivals_on t (pipeline s) = []"
    by (auto simp: arrivals_on_def filter_empty_conv)
qed

lemma overdue_day:
  assumes "L \<le> 0" and "overdue t s" and "sim_day agent demand L t s = Inr s'"
  shows "overdue (Suc t) s'" and "prefix (pipeline s) (pipeline s')"
proof -
  have old: "a < int (Suc t)" if "(a, q) \<in> set (pipeline s)" for a q
    using that assms(2) by (fastforce simp: overdue_def)
  from sim_day_pipeline [OF assms(3)]
  have c: "pipeline s' = pipeline s \<or> (\<exists>q>0. pipeline s' = pipeline s @ [(int t + L, q)])"
    by (simp add: overdue_filter [OF assms(2)])
  then show "prefix (pipeline s) (pipeline s')" by auto
  from c assms(1) old show "overdue (Suc t) s'"
    unfolding overdue_def by fastforce
qed

lemma overdue_state_at:
  assumes "L \<le> 0" and "state_at agent demand L inv0 t = Inr s"
  shows "overdue t s"
proof (rule state_at_invariant [where P = overdue, OF _ _ assms(2)])
  show "overdue t (initial_state inv0)" for t
    by (simp add: overdue_def initial_state_def)
  show "overdue (Suc t) s'"
    if "overdue t s" and "sim_day agent demand L t s = Inr s'" for t s s'
    using overdue_day(1) [OF assms(1) that] .
qed

lemma overdue_pipeline_grows:
  assumes "L \<le> 0" and "start_day demand \<le> u"
    and "state_at agent demand L inv0 u = Inr su"
    and "state_at agent demand L inv0 (u + k) = Inr st"
  shows "prefix (pipeline su) (pipeline st)"
  using assms(4)
proof (induction k arbitrary: st)
  case 0
  with assms(3) show ?case by simp
next
  case (Suc k)
  have le: "start_day demand \<le> u + k" using assms(2) by simp
  from Suc.prems have "state_at agent demand L inv0 (Suc (u + k)) = Inr st" by simp
  from state_at_Suc_Inr [OF le this] obtain s0
    where a: "state_at agent demand L inv0 (u + k) = Inr s0"
      and b: "sim_day agent demand L (u + k) s0 = Inr st" by blast
  have "prefix (pipeline s0) (pipeline st)"
    by (rule overdue_day(2) [OF assms(1) overdue_state_at [OF assms(1) a] b])
  with Suc.IH [OF a] show ?case by (rule prefix_order.trans)
qed

lemma in_transit_day:
  assumes "1 \<le> L" and "in_transit L t s" and "sim_day agent demand L t s = Inr s'"
  shows "in_transit L (Suc t) s'"
proof -
  let ?kept = "filter (\<lambda>(a, q). a \<noteq> int t) (pipeline s)"
  have d: "distinct (map fst ?kept)"
    using assms(2) by (simp add: in_transit_def distinct_map_filter)
  have b: "int (Suc t) \<le> a \<and> a < int t + L" if "(a, q) \<in> set ?kept" for a q
    using that assms(2) by (fastforce simp: in_transit_def)
  then have fresh: "int t + L \<notin> fst ` set ?kept" by fastforce
  from sim_day_pipeline [OF assms(3)]
  have "pipeline s' = ?kept \<or> (\<exists>q>0. pipeline s' = ?kept @ [(int t + L, q)])" .
  then show ?thesis
  proof
    assume "pipeline s' = ?kept"
    with d b show ?thesis unfolding in_transit_def by fastforce
  next
    assume "\<exists>q>0. pipeline s' = ?kept @ [(int t + L, q)]"
    then obtain q where "pipeline s' = ?kept @ [(int t + L, q)]" by blast
    with d b fresh assms(1) show ?thesis unfolding in_transit_def by fastforce
  qed
qed

lemma in_transit_state_at:
  assumes "1 \<le> L" and "state_at agent demand L inv0 t = Inr s"
  shows "in_transit L t s"
proof (rule state_at_invariant [where P = "in_transit L", OF _ _ assms(2)])
  show "in_transit L t (initial_state inv0)" for t
    by (simp add: in_transit_def initial_state_def)
  show "in_transit L (Suc t) s'"
    if "in_transit L t s" and "sim_day agent demand L t s = Inr s'" for t s s'
    using in_transit_day [OF assms(1) that] .
qed

lemma order_stays_in_pipeline:
  assumes "start_day demand \<le> u"
    and "state_at agent demand L inv0 u = Inr su"
    and "(a, q) \<in> set (pipeline su)"
    and "state_at agent demand L inv0 (u + k) = Inr st"
    and "int (u + k) \<le> a"
  shows "(a, q) \<in> set (pipeline st)"
  using assms(4,5)
proof (induction k arbitrary: st)
  case 0
  with assms(2,3) show ?case by simp
next
  case (Suc k)
  have le: "start_day demand \<le> u + k" using assms(1) by simp
  from Suc.prems(1) have "state_at agent demand L inv0 (Suc (u + k)) = Inr st" by simp
  from state_at_Suc_Inr [OF le this] obtain s0
    where x: "state_at agent demand L inv0 (u + k) = Inr s0"
      and y: "sim_day agent demand L (u + k) s0 = Inr st" by blast
  from Suc.prems(2) have ne: "a \<noteq> int (u + k)" and "int (u + k) \<le> a" by simp_all
  from Suc.IH [OF x this(2)] have "(a, q) \<in> set (pipeline s0)" .
  with ne have "(a, q) \<in> set (filter (\<lambda>(a, q). a \<noteq> int (u + k)) (pipeline s0))" by simp
  with sim_day_pipeline [OF y] show ?case by auto
qed

lemma filter_distinct_key:
  assumes "distinct (map fst pl)" and "(a, q) \<in> set pl"
  shows "filter (\<lambda>(x, y). x = a) pl = [(a, q)]"
  using assms
proof (induction pl)
  case Nil
  then show ?case by simp
next
  case (Cons p pl)
  show ?case
  proof (cases "p = (a, q)")
    case True
    with Cons.prems(1) have "a \<notin> fst ` set pl" by simp
    then have "\<forall>(x, y) \<in> set pl. x \<noteq> a" by force
    then have "filter (\<lambda>(x, y). x = a) pl = []" by (auto simp: filter_empty_conv)
    with True show ?thesis by simp
  next
    case False
    with Cons.prems have m: "(a, q) \<in> set pl" and "distinct (map fst pl)" by simp_all
    from Cons.prems(1) have "fst p \<notin> fst ` set pl" by simp
    moreover from m have "a \<in> fst ` set pl" by (metis fst_conv image_eqI)
    ultimately have "fst p \<noteq> a" by auto
    with Cons.IH [OF \<open>distinct (map fst pl)\<close> m] show ?thesis by (cases p) simp
  qed
qed

subsection \<open>Runs on a constant demand\<close>

lemmas sim_eval =
  sim_day_def sim_arrivals_def arrivals_on_def sim_reorder_def on_order_of_def
  recommend_default_constant binary64_Ints sim_demand_def initial_state_def Let_def

lemma start_day_short: "start_day (replicate 10 (1::real)) = 30"
  by (simp add: start_day_def)

lemma start_day_32: "start_day (replicate 32 (1::real)) = 30"
  by (simp add: start_day_def)

lemma start_day_34: "start_day (replicate 34 (1::real)) = 30"
  by (simp add: start_day_def)

lemma start_day_50: "start_day (replicate 50 (1::real)) = 30"
  by (simp add: start_day_def)

text \<open>A series shorter than 30 observations: no day is simulated, and the returned
  \<open>periods\<close> is negative.\<close>

lemma short_series_negative_periods:
  "length (replicate 10 (1::real)) = 10
   \<and> start_day (replicate 10 1) = 30
   \<and> sim_days (replicate 10 1) = []
   \<and> run_validation (replicate 10 1) default_agent 120 5 =
        Inr \<lparr>periods = - 20, stockout_rate = 0, avg_ending_inventory = 0,
             total_shortage_units = 0, orders_placed = 0\<rparr>"
  by (simp add: run_validation_def sim_days_def start_day_short metrics_of_def py_truediv_def
      initial_state_def)

lemma run_late_order_reorder:
  "sim_reorder default_agent (replicate 32 1) (- 2) 30 (sim_arrivals 30 (initial_state 0)) =
     Inr \<lparr>inventory = 0, pipeline = [(28, 8)], stockout_days = 0, total_shortage = 0,
          total_holding = 0, placed_orders = 1\<rparr>"
  by (simp add: sim_eval)

lemma run_late_order_states:
  "state_at default_agent (replicate 32 1) (- 2) 0 30 = Inr (initial_state 0)"
  "state_at default_agent (replicate 32 1) (- 2) 0 31 =
     Inr \<lparr>inventory = 0, pipeline = [(28, 8)], stockout_days = 1, total_shortage = 1,
          total_holding = 0, placed_orders = 1\<rparr>"
  by (simp_all add: state_at_def start_day_32 sim_eval)

lemma run_two_days_reorder:
  "sim_reorder default_agent (replicate 34 1) 2 30 (sim_arrivals 30 (initial_state 0)) =
     Inr \<lparr>inventory = 0, pipeline = [(32, 9)], stockout_days = 0, total_shortage = 0,
          total_holding = 0, placed_orders = 1\<rparr>"
  by (simp add: sim_eval)

lemma run_two_days_states:
  "state_at default_agent (replicate 34 1) 2 0 30 = Inr (initial_state 0)"
  "state_at default_agent (replicate 34 1) 2 0 31 =
     Inr \<lparr>inventory = 0, pipeline = [(32, 9)], stockout_days = 1, total_shortage = 1,
          total_holding = 0, placed_orders = 1\<rparr>"
  "state_at default_agent (replicate 34 1) 2 0 32 =
     Inr \<lparr>inventory = 0, pipeline = [(32, 9)], stockout_days = 2, total_shortage = 2,
          total_holding = 0, placed_orders = 1\<rparr>"
  "state_at default_agent (replicate 34 1) 2 0 33 =
     Inr \<lparr>inventory = 8, pipeline = [], stockout_days = 2, total_shortage = 2,
          total_holding = 8, placed_orders = 1\<rparr>"
  by (simp_all add: state_at_def start_day_34 sim_eval)

section \<open>Periods and rates of a run\<close>

text \<open>
  Claim C3 says that a series of 50 observations gives 17 periods. It gives 20: the
  quotient \<open>50 div 3\<close> is 16, so the first simulated day is \<open>max 30 (min 45 16) = 30\<close>,
  and the days 30 to 49 are simulated.
\<close>

theorem C3_counterexample:
  "length (replicate 50 (1::real)) = 50
   \<and> start_day (replicate 50 1) = 30
   \<and> length (sim_days (replicate 50 1)) = 20
   \<and> run_validation (replicate 50 1) default_agent 120 5 =
        Inr \<lparr>periods = 20, stockout_rate = 0, avg_ending_inventory = 109.5,
             total_shortage_units = 0, orders_placed = 0\<rparr>"
  by (simp add: run_validation_def sim_days_def start_day_50 metrics_of_def py_truediv_def
      sim_eval)

text \<open>
  Claim C3, amended. For every series of \<open>n\<close> observations the first simulated day is
  \<open>max 30 (min 45 (n div 3))\<close>, and the run on a constructed agent returns. When
  \<open>n \<ge> 30\<close>, its \<open>periods\<close> is the number of simulated days, \<open>n\<close> minus the first day;
  a series of 50 observations gives 20 periods. For every \<open>n\<close>, the stock-out rate is
  the number of stock-out days over \<open>periods\<close> and the average ending inventory is the
  holding total over \<open>periods\<close>, and when \<open>periods\<close> is 0 both are 0 and no division is
  attempted.
\<close>

theorem C3_periods_and_rates:
  "start_day demand = max 30 (min 45 (length demand div 3))
   \<and> (service_level agent \<in> dom SERVICE_Z \<longrightarrow>
        (\<exists>s m. sim_loop agent demand L (sim_days demand) (initial_state inv0) = Inr s
           \<and> run_validation demand agent inv0 L = Inr m
           \<and> (30 \<le> length demand \<longrightarrow>
                periods m = int (length (sim_days demand))
                \<and> periods m = int (length demand) - int (start_day demand))
           \<and> (length demand = 50 \<longrightarrow> periods m = 20)
           \<and> (periods m \<noteq> 0 \<longrightarrow>
                stockout_rate m = real_of_int (stockout_days s) / real_of_int (periods m)
                \<and> avg_ending_inventory m = total_holding s / real_of_int (periods m))
           \<and> (periods m = 0 \<longrightarrow> stockout_rate m = 0 \<and> avg_ending_inventory m = 0)))"
proof (intro conjI impI)
  show "start_day demand = max 30 (min 45 (length demand div 3))"
    by (simp add: start_day_def)
next
  assume valid: "service_level agent \<in> dom SERVICE_Z"
  obtain m where m: "run_validation demand agent inv0 L = Inr m"
    using run_validation_defined [OF valid] by blast
  from run_validation_metrics [OF m] obtain s
    where s: "sim_loop agent demand L (sim_days demand) (initial_state inv0) = Inr s"
      and p: "periods m = int (length demand) - int (max 30 (min 45 (length demand div 3)))"
      and r: "stockout_rate m =
               (if periods m = 0 then 0
                else real_of_int (stockout_days s) / real_of_int (periods m))"
      and h: "avg_ending_inventory m =
               (if periods m = 0 then 0 else total_holding s / real_of_int (periods m))"
    by blast
  have c: "periods m = int (length (sim_days demand))" if "30 \<le> length demand"
    by (rule run_validation_periods [OF m start_day_le [OF that]])
  have f: "length demand = 50 \<longrightarrow> periods m = 20" using p by simp
  from s m c p f r h
  show "\<exists>s m. sim_loop agent demand L (sim_days demand) (initial_state inv0) = Inr s
           \<and> run_validation demand agent inv0 L = Inr m
           \<and> (30 \<le> length demand \<longrightarrow>
                periods m = int (length (sim_days demand))
                \<and> periods m = int (length demand) - int (start_day demand))
           \<and> (length demand = 50 \<longrightarrow> periods m = 20)
           \<and> (periods m \<noteq> 0 \<longrightarrow>
                stockout_rate m = real_of_int (stockout_days s) / real_of_int (periods m)
                \<and> avg_ending_inventory m = total_holding s / real_of_int (periods m))
           \<and> (periods m = 0 \<longrightarrow> stockout_rate m = 0 \<and> avg_ending_inventory m = 0)"
    by (auto simp: start_day_def)
qed

theorem C3_periods_and_rates_witness:
  "start_day (replicate 50 (1::real)) = max 30 (min 45 (length (replicate 50 (1::real)) div 3))
   \<and> service_level default_agent \<in> dom SERVICE_Z
   \<and> 30 \<le> length (replicate 50 (1::real)) \<and> length (replicate 50 (1::real)) = 50
   \<and> (\<exists>s m. sim_loop default_agent (replicate 50 1) 5 (sim_days (replicate 50 1))
                (initial_state 120) = Inr s
          \<and> run_validation (replicate 50 1) default_agent 120 5 = Inr m
          \<and> periods m = int (length (sim_days (replicate 50 1)))
          \<and> periods m = 20 \<and> periods m \<noteq> 0
          \<and> stockout_rate m = real_of_int (stockout_days s) / 20
          \<and> avg_ending_inventory m = total_holding s / 20)
   \<and> 30 \<le> length (replicate 30 (1::real))
   \<and> (\<exists>m. run_validation (replicate 30 1) default_agent 120 5 = Inr m
          \<and> periods m = 0 \<and> stockout_rate m = 0 \<and> avg_ending_inventory m = 0)"
proof -
  have c: "start_day (replicate 30 (1::real)) = 30" by (simp add: start_day_def)
  have d: "sim_days (replicate 50 (1::real)) = [30..<50]"
    by (simp only: sim_days_def start_day_50 length_replicate)
  from C3_periods_and_rates [of "replicate 50 1" default_agent 5 120]
    C3_periods_and_rates [of "replicate 30 1" default_agent 5 120]
    default_agent_valid c
  show ?thesis unfolding d by (auto simp: start_day_50)
qed

text \<open>
  Claim C9. In every run on a constructed agent with a non-negative initial inventory,
  the stock on hand is not negative at any point of any simulated day: when the day
  begins, after the arrivals, after the reorder check, and after the demand is served,
  which is the value added to the holding total. Every phase of every day returns, the
  run returns, and the holding total and the average ending inventory are not negative.
  The hypothesis that the demand is non-negative is not needed.
\<close>

theorem C9_inventory_never_negative:
  assumes "service_level agent \<in> dom SERVICE_Z" and "0 \<le> inv0"
  shows "(\<forall>t \<in> set (sim_days demand).
            \<exists>s r e. state_at agent demand L inv0 t = Inr s \<and> 0 \<le> inventory s
              \<and> 0 \<le> inventory (sim_arrivals t s)
              \<and> sim_reorder agent demand L t (sim_arrivals t s) = Inr r \<and> 0 \<le> inventory r
              \<and> sim_demand demand t r = Inr e \<and> 0 \<le> inventory e \<and> 0 \<le> total_holding e
              \<and> state_at agent demand L inv0 (Suc t) = Inr e)
       \<and> (\<exists>s m. sim_loop agent demand L (sim_days demand) (initial_state inv0) = Inr s
              \<and> 0 \<le> inventory s \<and> 0 \<le> total_holding s
              \<and> run_validation demand agent inv0 L = Inr m
              \<and> 0 \<le> avg_ending_inventory m)"
proof (intro conjI ballI)
  fix t assume "t \<in> set (sim_days demand)"
  then have t: "start_day demand \<le> t" "t < length demand" by (simp_all add: sim_days_def)
  obtain s where s: "state_at agent demand L inv0 t = Inr s"
    using state_at_defined [OF assms(1), of t demand L inv0] t by auto
  obtain e where e: "state_at agent demand L inv0 (Suc t) = Inr e"
    using state_at_defined [OF assms(1), of "Suc t" demand L inv0] t by auto
  from e s have day: "sim_day agent demand L t s = Inr e"
    by (simp add: state_at_Suc [OF t(1)])
  then obtain r where r: "sim_reorder agent demand L t (sim_arrivals t s) = Inr r"
    and d: "sim_demand demand t r = Inr e" by (rule sim_day_Inr)
  have ok: "stock_ok s" by (rule stock_ok_state_at [OF assms(2) s])
  have oka: "stock_ok (sim_arrivals t s)" by (rule stock_ok_arrivals [OF ok])
  have okr: "stock_ok r" by (rule stock_ok_reorder [OF oka r])
  have oke: "stock_ok e" by (rule stock_ok_demand [OF okr d])
  from ok oka okr oke s r d e
  show "\<exists>s r e. state_at agent demand L inv0 t = Inr s \<and> 0 \<le> inventory s
              \<and> 0 \<le> inventory (sim_arrivals t s)
              \<and> sim_reorder agent demand L t (sim_arrivals t s) = Inr r \<and> 0 \<le> inventory r
              \<and> sim_demand demand t r = Inr e \<and> 0 \<le> inventory e \<and> 0 \<le> total_holding e
              \<and> state_at agent demand L inv0 (Suc t) = Inr e"
    unfolding stock_ok_def by blast
next
  obtain s where s: "state_at agent demand L inv0 (length demand) = Inr s"
    using state_at_defined [OF assms(1), of "length demand" demand L inv0] by auto
  have ok: "stock_ok s" by (rule stock_ok_state_at [OF assms(2) s])
  obtain m where m: "metrics_of demand s = Inr m" using metrics_of_defined by blast
  have run: "run_validation demand agent inv0 L = Inr m"
    using s m by (simp add: run_validation_def sim_days_final)
  have "0 \<le> avg_ending_inventory m"
  proof (cases "length demand \<le> start_day demand")
    case True
    from short_series_holding [OF True s] metrics_of_fields(3) [OF m] show ?thesis by simp
  next
    case False
    then have "0 < periods m" using metrics_of_fields(1) [OF m] by simp
    with ok metrics_of_fields(3) [OF m] show ?thesis by (simp add: stock_ok_def)
  qed
  with ok s run
  show "\<exists>s m. sim_loop agent demand L (sim_days demand) (initial_state inv0) = Inr s
              \<and> 0 \<le> inventory s \<and> 0 \<le> total_holding s
              \<and> run_validation demand agent inv0 L = Inr m
              \<and> 0 \<le> avg_ending_inventory m"
    unfolding stock_ok_def sim_days_final by blast
qed

theorem C9_inventory_never_negative_witness:
  "service_level default_agent \<in> dom SERVICE_Z \<and> (0::real) \<le> 0
   \<and> 30 \<in> set (sim_days (replicate 32 1))
   \<and> (\<exists>s r e. state_at default_agent (replicate 32 1) 5 0 30 = Inr s \<and> 0 \<le> inventory s
          \<and> 0 \<le> inventory (sim_arrivals 30 s)
          \<and> sim_reorder default_agent (replicate 32 1) 5 30 (sim_arrivals 30 s) = Inr r
          \<and> 0 \<le> inventory r
          \<and> sim_demand (replicate 32 1) 30 r = Inr e \<and> 0 \<le> inventory e
          \<and> 0 \<le> total_holding e
          \<and> state_at default_agent (replicate 32 1) 5 0 (Suc 30) = Inr e)
   \<and> (\<exists>s m. sim_loop default_agent (replicate 32 1) 5 (sim_days (replicate 32 1))
                (initial_state 0) = Inr s
          \<and> 0 \<le> inventory s \<and> 0 \<le> total_holding s
          \<and> run_validation (replicate 32 1) default_agent 0 5 = Inr m
          \<and> 0 \<le> avg_ending_inventory m)"
proof -
  have z: "(0::real) \<le> 0" by simp
  have m: "30 \<in> set (sim_days (replicate 32 (1::real)))"
    by (simp add: sim_days_def start_day_32)
  from C9_inventory_never_negative [OF default_agent_valid z, of "replicate 32 1" 5]
    default_agent_valid z m
  show ?thesis by blast
qed

section \<open>Arrival of the orders\<close>

text \<open>
  Claim C4 says that in every run an order placed on day \<open>d\<close> with lead time \<open>L\<close> arrives
  on day \<open>d + L\<close>. With lead time 0 it does not. The series has 32 observations equal
  to 1 and the initial inventory is 0: on day 30 the arrival phase leaves the stock at
  0, then an order of 8 units is placed with arrival day \<open>30 + 0\<close>; day 30 ends with a
  stock of 0, the arrival phase of day 31 changes nothing, and the run ends after day 31
  with a stock of 0 and the order still in the pipeline.
\<close>

theorem C4_counterexample:
  "state_at default_agent (replicate 32 1) 0 0 30 = Inr (initial_state 0)
   \<and> inventory (sim_arrivals 30 (initial_state 0)) = 0
   \<and> sim_reorder default_agent (replicate 32 1) 0 30 (sim_arrivals 30 (initial_state 0)) =
        Inr \<lparr>inventory = 0, pipeline = [(30 + 0, 8)], stockout_days = 0, total_shortage = 0,
             total_holding = 0, placed_orders = 1\<rparr>
   \<and> state_at default_agent (replicate 32 1) 0 0 31 =
        Inr \<lparr>inventory = 0, pipeline = [(30, 8)], stockout_days = 1, total_shortage = 1,
             total_holding = 0, placed_orders = 1\<rparr>
   \<and> sim_arrivals 31 \<lparr>inventory = 0, pipeline = [(30, 8)], stockout_days = 1,
          total_shortage = 1, total_holding = 0, placed_orders = 1\<rparr> =
        \<lparr>inventory = 0, pipeline = [(30, 8)], stockout_days = 1, total_shortage = 1,
          total_holding = 0, placed_orders = 1\<rparr>
   \<and> length (replicate 32 (1::real)) = 32
   \<and> state_at default_agent (replicate 32 1) 0 0 32 =
        Inr \<lparr>inventory = 0, pipeline = [(30, 8)], stockout_days = 2, total_shortage = 2,
             total_holding = 0, placed_orders = 1\<rparr>"
  by (simp add: state_at_def start_day_32 sim_eval)

text \<open>
  Claim C4, amended. In a run with a lead time \<open>L \<ge> 1\<close>, an order of \<open>q\<close> units placed on
  day \<open>d\<close> enters the pipeline with the arrival day \<open>a = d + L\<close>. At the start of a later
  day \<open>t\<close>: while \<open>t < a\<close> the entry is in the pipeline and stays there through the
  arrival phase; when \<open>t = a\<close> it is the only arrival of the day, the arrival phase adds
  exactly \<open>q\<close> to the stock, lowers the total on order by exactly \<open>q\<close> and leaves no entry
  due on \<open>a\<close>; when \<open>t > a\<close> no entry due on \<open>a\<close> is in the pipeline. An order whose
  arrival day is not a day of the run does not arrive within the run.
\<close>

theorem C4_order_arrives_on_due_day:
  assumes "1 \<le> L"
    and "start_day demand \<le> d"
    and "state_at agent demand L inv0 d = Inr sd"
    and "sim_reorder agent demand L d (sim_arrivals d sd) = Inr s1"
    and "pipeline s1 = pipeline (sim_arrivals d sd) @ [(a, q)]"
    and "d < t"
    and "state_at agent demand L inv0 t = Inr st"
  shows "a = int d + L \<and> 0 < q
       \<and> (int t < a \<longrightarrow>
            (a, q) \<in> set (pipeline st) \<and> (a, q) \<in> set (pipeline (sim_arrivals t st)))
       \<and> (int t = a \<longrightarrow>
            arrivals_on t (pipeline st) = [q]
            \<and> inventory (sim_arrivals t st) = inventory st + real_of_int q
            \<and> on_order_of (pipeline (sim_arrivals t st)) = on_order_of (pipeline st) - q
            \<and> (\<forall>q'. (a, q') \<notin> set (pipeline (sim_arrivals t st))))
       \<and> (a < int t \<longrightarrow>
            (\<forall>q'. (a, q') \<notin> set (pipeline st))
            \<and> (\<forall>q'. (a, q') \<notin> set (pipeline (sim_arrivals t st))))"
proof -
  have a: "a = int d + L" and q: "0 < q" by (rule order_placed [OF assms(4,5)])+
  from assms(6) have le: "Suc d \<le> t" by simp
  from state_at_earlier [OF assms(7) le] obtain se
    where se: "state_at agent demand L inv0 (Suc d) = Inr se" by blast
  have pe: "pipeline se = pipeline s1"
    by (rule state_after_order [OF assms(2,3,4) se])
  then have mem: "(a, q) \<in> set (pipeline se)" using assms(5) by simp
  from le obtain k where k: "t = Suc d + k" using le_Suc_ex by blast
  have stay: "(a, q) \<in> set (pipeline st)" if "int t \<le> a"
    using order_stays_in_pipeline [OF _ se mem, of k st] assms(2,7) k that by simp
  have it: "in_transit L t st" by (rule in_transit_state_at [OF assms(1,7)])
  have early: "(a, q) \<in> set (pipeline st) \<and> (a, q) \<in> set (pipeline (sim_arrivals t st))"
    if "int t < a"
    using stay that by (simp add: sim_arrivals_pipeline)
  have due: "arrivals_on t (pipeline st) = [q]
            \<and> inventory (sim_arrivals t st) = inventory st + real_of_int q
            \<and> on_order_of (pipeline (sim_arrivals t st)) = on_order_of (pipeline st) - q
            \<and> (\<forall>q'. (a, q') \<notin> set (pipeline (sim_arrivals t st)))"
    if "int t = a"
  proof -
    from stay that have m: "(a, q) \<in> set (pipeline st)" by simp
    from it have "distinct (map fst (pipeline st))" by (simp add: in_transit_def)
    from filter_distinct_key [OF this m] that
    have ar: "arrivals_on t (pipeline st) = [q]" by (simp add: arrivals_on_def)
    from on_order_of_split [of "pipeline st" t] ar
    have "on_order_of (pipeline (sim_arrivals t st)) = on_order_of (pipeline st) - q"
      by (simp add: sim_arrivals_pipeline)
    with ar that show ?thesis
      by (auto simp: sim_arrivals_inventory sim_arrivals_pipeline)
  qed
  have late: "(\<forall>q'. (a, q') \<notin> set (pipeline st))
            \<and> (\<forall>q'. (a, q') \<notin> set (pipeline (sim_arrivals t st)))"
    if "a < int t"
    using it that unfolding in_transit_def by (fastforce simp: sim_arrivals_pipeline)
  from a q early due late show ?thesis by blast
qed

theorem C4_order_arrives_on_due_day_witness:
  "(1::int) \<le> 2 \<and> start_day (replicate 34 1) \<le> 30
   \<and> state_at default_agent (replicate 34 1) 2 0 30 = Inr (initial_state 0)
   \<and> sim_reorder default_agent (replicate 34 1) 2 30 (sim_arrivals 30 (initial_state 0)) =
        Inr \<lparr>inventory = 0, pipeline = [(32, 9)], stockout_days = 0, total_shortage = 0,
             total_holding = 0, placed_orders = 1\<rparr>
   \<and> [(32 :: int, 9 :: int)] = pipeline (sim_arrivals 30 (initial_state 0)) @ [(32, 9)]
   \<and> (30::nat) < 31 \<and> int 31 < 32
   \<and> state_at default_agent (replicate 34 1) 2 0 31 =
        Inr \<lparr>inventory = 0, pipeline = [(32, 9)], stockout_days = 1, total_shortage = 1,
             total_holding = 0, placed_orders = 1\<rparr>
   \<and> (32, 9) \<in> set (pipeline (sim_arrivals 31
          \<lparr>inventory = 0, pipeline = [(32, 9)], stockout_days = 1, total_shortage = 1,
             total_holding = 0, placed_orders = 1\<rparr>))
   \<and> (30::nat) < 32 \<and> int 32 = 32
   \<and> state_at default_agent (replicate 34 1) 2 0 32 =
        Inr \<lparr>inventory = 0, pipeline = [(32, 9)], stockout_days = 2, total_shortage = 2,
             total_holding = 0, placed_orders = 1\<rparr>
   \<and> arrivals_on 32 [(32, 9)] = [9]
   \<and> inventory (sim_arrivals 32
          \<lparr>inventory = 0, pipeline = [(32, 9)], stockout_days = 2, total_shortage = 2,
             total_holding = 0, placed_orders = 1\<rparr>) = 0 + real_of_int 9
   \<and> on_order_of (pipeline (sim_arrivals 32
          \<lparr>inventory = 0, pipeline = [(32, 9)], stockout_days = 2, total_shortage = 2,
             total_holding = 0, placed_orders = 1\<rparr>)) = on_order_of [(32, 9)] - 9
   \<and> (30::nat) < 33 \<and> (32::int) < int 33
   \<and> state_at default_agent (replicate 34 1) 2 0 33 =
        Inr \<lparr>inventory = 8, pipeline = [], stockout_days = 2, total_shortage = 2,
             total_holding = 8, placed_orders = 1\<rparr>
   \<and> (32 :: int, 9 :: int) \<notin> set (pipeline
          \<lparr>inventory = 8, pipeline = [], stockout_days = 2, total_shortage = 2,
             total_holding = 8, placed_orders = 1\<rparr>)"
proof -
  have h1: "(1::int) \<le> 2" by simp
  have h2: "start_day (replicate 34 (1::real)) \<le> 30" by (simp add: start_day_34)
  have h5: "pipeline \<lparr>inventory = 0, pipeline = [(32, 9)], stockout_days = 0, total_shortage = 0,
          total_holding = 0, placed_orders = 1\<rparr> =
        pipeline (sim_arrivals 30 (initial_state 0)) @ [(32, 9)]"
    by (simp add: sim_eval)
  have a: "(30::nat) < 31" and b: "(30::nat) < 32" and c: "(30::nat) < 33" by simp_all
  note base = h1 h2 run_two_days_states(1) run_two_days_reorder h5
  have r1: "(32, 9) \<in> set (pipeline (sim_arrivals 31
          \<lparr>inventory = 0, pipeline = [(32, 9)], stockout_days = 1, total_shortage = 1,
             total_holding = 0, placed_orders = 1\<rparr>))"
    using C4_order_arrives_on_due_day [OF base a run_two_days_states(2)] by simp
  have r2: "arrivals_on 32 [(32, 9)] = [9]
   \<and> inventory (sim_arrivals 32
          \<lparr>inventory = 0, pipeline = [(32, 9)], stockout_days = 2, total_shortage = 2,
             total_holding = 0, placed_orders = 1\<rparr>) = 0 + real_of_int 9
   \<and> on_order_of (pipeline (sim_arrivals 32
          \<lparr>inventory = 0, pipeline = [(32, 9)], stockout_days = 2, total_shortage = 2,
             total_holding = 0, placed_orders = 1\<rparr>)) = on_order_of [(32, 9)] - 9"
    using C4_order_arrives_on_due_day [OF base b run_two_days_states(3)] by simp
  have r3: "(32 :: int, 9 :: int) \<notin> set (pipeline
          \<lparr>inventory = 8, pipeline = [], stockout_days = 2, total_shortage = 2,
             total_holding = 8, placed_orders = 1\<rparr>)"
    using C4_order_arrives_on_due_day [OF base c run_two_days_states(4)] by simp
  have g5: "[(32 :: int, 9 :: int)] = pipeline (sim_arrivals 30 (initial_state 0)) @ [(32, 9)]"
    using h5 by simp
  from r1 r2 r3 g5 h2 run_two_days_states run_two_days_reorder
  show ?thesis by (intro conjI) simp_all
qed

text \<open>
  Claim C10. The simulator uses its lead time as it is. In a run with a lead time
  \<open>L \<le> 0\<close>, an order placed on day \<open>d\<close> enters the pipeline with the arrival day
  \<open>d + L \<le> d\<close>. On every later day \<open>t\<close> of the run (and in the state the run ends in)
  the arrival check matches nothing, so the arrival phase changes neither the stock nor
  the pipeline; the entry is still in the pipeline, which has only grown since the
  order, so its quantity is still counted in the total on order.
\<close>

theorem C10_order_never_arrives:
  assumes "L \<le> 0"
    and "start_day demand \<le> d"
    and "state_at agent demand L inv0 d = Inr sd"
    and "sim_reorder agent demand L d (sim_arrivals d sd) = Inr s1"
    and "pipeline s1 = pipeline (sim_arrivals d sd) @ [(a, q)]"
    and "d < t"
    and "state_at agent demand L inv0 t = Inr st"
  shows "a = int d + L \<and> a \<le> int d \<and> a \<noteq> int t
       \<and> arrivals_on t (pipeline st) = []
       \<and> sim_arrivals t st = st
       \<and> (a, q) \<in> set (pipeline st)
       \<and> (\<exists>rest. pipeline st = pipeline s1 @ rest
             \<and> on_order_of (pipeline st) = on_order_of (pipeline s1) + on_order_of rest)"
proof -
  have a: "a = int d + L" by (rule order_placed(1) [OF assms(4,5)])
  with assms(1,6) have a': "a \<le> int d" "a \<noteq> int t" by simp_all
  from assms(6) have le: "Suc d \<le> t" by simp
  from state_at_earlier [OF assms(7) le] obtain se
    where se: "state_at agent demand L inv0 (Suc d) = Inr se" by blast
  have pe: "pipeline se = pipeline s1"
    by (rule state_after_order [OF assms(2,3,4) se])
  from le obtain k where k: "t = Suc d + k" using le_Suc_ex by blast
  have "prefix (pipeline se) (pipeline st)"
    using overdue_pipeline_grows [OF assms(1) _ se, of k st] assms(2,7) k by simp
  then obtain rest where rest: "pipeline st = pipeline s1 @ rest"
    unfolding pe by (auto simp: prefix_def)
  have od: "overdue t st" by (rule overdue_state_at [OF assms(1,7)])
  have "(a, q) \<in> set (pipeline st)" using rest assms(5) by simp
  with a a' overdue_arrivals [OF od] rest show ?thesis
    by (auto simp: on_order_of_append)
qed

theorem C10_order_never_arrives_witness:
  "(- 2 :: int) \<le> 0 \<and> start_day (replicate 32 1) \<le> 30
   \<and> state_at default_agent (replicate 32 1) (- 2) 0 30 = Inr (initial_state 0)
   \<and> sim_reorder default_agent (replicate 32 1) (- 2) 30 (sim_arrivals 30 (initial_state 0)) =
        Inr \<lparr>inventory = 0, pipeline = [(28, 8)], stockout_days = 0, total_shortage = 0,
             total_holding = 0, placed_orders = 1\<rparr>
   \<and> (30::nat) < 31
   \<and> state_at default_agent (replicate 32 1) (- 2) 0 31 =
        Inr \<lparr>inventory = 0, pipeline = [(28, 8)], stockout_days = 1, total_shortage = 1,
             total_holding = 0, placed_orders = 1\<rparr>
   \<and> (28::int) = int 30 + (- 2) \<and> (28::int) \<le> int 30 \<and> (28::int) \<noteq> int 31
   \<and> arrivals_on 31 [(28, 8)] = []
   \<and> sim_arrivals 31 \<lparr>inventory = 0, pipeline = [(28, 8)], stockout_days = 1,
          total_shortage = 1, total_holding = 0, placed_orders = 1\<rparr> =
        \<lparr>inventory = 0, pipeline = [(28, 8)], stockout_days = 1, total_shortage = 1,
          total_holding = 0, placed_orders = 1\<rparr>
   \<and> (28, 8) \<in> set [(28 :: int, 8 :: int)]"
proof -
  have h1: "(- 2 :: int) \<le> 0" by simp
  have h2: "start_day (replicate 32 (1::real)) \<le> 30" by (simp add: start_day_32)
  have h5: "pipeline \<lparr>inventory = 0, pipeline = [(28, 8)], stockout_days = 0, total_shortage = 0,
          total_holding = 0, placed_orders = 1\<rparr> =
        pipeline (sim_arrivals 30 (initial_state 0)) @ [(28, 8)]"
    by (simp add: sim_eval)
  have h6: "(30::nat) < 31" by simp
  from C10_order_never_arrives [OF h1 h2 run_late_order_states(1) run_late_order_reorder h5 h6
      run_late_order_states(2)]
    h1 h2 run_late_order_states run_late_order_reorder h6
  show ?thesis by simp
qed

end
